theory Spec2Isabelle
  imports Main "HOL-Library.Word" "HOL-Library.Product_Lexorder"
begin

section \<open>DistanceEst: data model\<close>

text \<open>
  The C++ types \<^verbatim>\<open>int\<close> and \<^verbatim>\<open>unsigned\<close> are 32-bit words. Arithmetic that mixes
  the two is done on \<^verbatim>\<open>unsigned\<close> (modulo \<open>2 ^ 32\<close>), and an \<^verbatim>\<open>int\<close> is read
  from a word with \<open>sint\<close>.
\<close>

type_synonym cint = "32 word"
type_synonym cunsigned = "32 word"

definition INT_MIN :: cint where
  "INT_MIN = - (2 ^ 31)"

text \<open>
  The fields of a SAM record that DistanceEst reads. The class itself (SAM.h) is not part
  of DistanceEst.cpp: \<^verbatim>\<open>targetAtQueryStart()\<close> and \<^verbatim>\<open>mateTargetAtQueryStart()\<close>, which SAM.h
  computes from the position and the CIGAR string, are taken as given \<^verbatim>\<open>int\<close> values of the
  record.
\<close>

record SAMRecord =
  rname :: string
  mrnm :: string
  mapq :: nat
  isUnmapped :: bool
  isMateUnmapped :: bool
  isPaired :: bool
  isReverse :: bool
  isMateReverse :: bool
  targetAtQueryStart :: cint
  mateTargetAtQueryStart :: cint

text \<open>The namespace \<^verbatim>\<open>opt\<close>: the options, and the flag \<^verbatim>\<open>opt::rf\<close> set from the histogram.\<close>

record opts =
  opt_k :: cunsigned
  opt_dot :: bool
  opt_seedLen :: cunsigned
  opt_npairs :: cunsigned
  opt_minMapQ :: cunsigned
  opt_rf :: bool
  opt_verbose :: int

text \<open>
  The class PDF (PDF.h) is not part of DistanceEst.cpp. Of it, DistanceEst calls
  \<^verbatim>\<open>getMaxIdx()\<close> and \<^verbatim>\<open>getSampleStdDev(n)\<close>; the standard deviation is a floating-point
  number, kept abstract as the type \<open>'sd\<close>.
\<close>

record 'sd PDF =
  getMaxIdx :: cint
  getSampleStdDev :: "cunsigned \<Rightarrow> 'sd"

section \<open>estimateDistance\<close>

type_synonym Fragments = "(cint \<times> cint) list"

text \<open>
  The body of the first loop of \<^verbatim>\<open>estimateDistance\<close>. \<^verbatim>\<open>len0 - a0\<close> and \<^verbatim>\<open>len1 + a0\<close>
  mix \<^verbatim>\<open>unsigned\<close> and \<^verbatim>\<open>int\<close>: they are computed modulo \<open>2 ^ 32\<close> and stored back into
  an \<^verbatim>\<open>int\<close>, which is the arithmetic of \<open>32 word\<close>.
\<close>

definition makeFragment :: "opts \<Rightarrow> cunsigned \<Rightarrow> cunsigned \<Rightarrow> SAMRecord \<Rightarrow> cint \<times> cint" where
  "makeFragment opt len0 len1 it =
     (let a0 = targetAtQueryStart it;
          a1 = mateTargetAtQueryStart it;
          a0 = (if isReverse it then len0 - a0 else a0);
          a1 = (if \<not> isMateReverse it then len1 - a1 else a1)
      in if opt_rf opt then (a1, len1 + a0) else (a0, len0 + a1))"

text \<open>The integers that an \<^verbatim>\<open>int\<close> holds.\<close>

definition in_int :: "int \<Rightarrow> bool" where
  "in_int x \<longleftrightarrow> - (2 ^ 31) \<le> x \<and> x < 2 ^ 31"

text \<open>The loop itself: one \<^verbatim>\<open>push_back\<close> per alignment, in the order of \<^verbatim>\<open>pairs\<close>.\<close>

fun fragmentLoop :: "opts \<Rightarrow> cunsigned \<Rightarrow> cunsigned \<Rightarrow> SAMRecord list \<Rightarrow> Fragments \<Rightarrow> Fragments" where
  "fragmentLoop opt len0 len1 [] fragments = fragments"
| "fragmentLoop opt len0 len1 (it # pairs) fragments =
     fragmentLoop opt len0 len1 pairs (fragments @ [makeFragment opt len0 len1 it])"

text \<open>
  \<^verbatim>\<open>sort(fragments.begin(), fragments.end())\<close> orders \<^verbatim>\<open>pair<int, int>\<close> lexicographically,
  each component as a signed integer. The key \<open>frag_key\<close> is injective, so every sorting
  algorithm (stable or not) returns the same list.
\<close>

definition frag_key :: "cint \<times> cint \<Rightarrow> int \<times> int" where
  "frag_key p = (sint (fst p), sint (snd p))"

definition sort_fragments :: "Fragments \<Rightarrow> Fragments" where
  "sort_fragments fragments = sort_key frag_key fragments"

text \<open>
  \<^verbatim>\<open>fragments.erase(unique(fragments.begin(), fragments.end()), fragments.end())\<close>: of every
  run of equal adjacent elements the first one is kept.
\<close>

fun unique :: "'a list \<Rightarrow> 'a list" where
  "unique [] = []"
| "unique [x] = [x]"
| "unique (x # y # xs) = (if x = y then unique (x # xs) else x # unique (y # xs))"

text \<open>Lines 120 to 123: the removal of duplicate fragments.\<close>

definition removeDuplicates :: "Fragments \<Rightarrow> Fragments" where
  "removeDuplicates fragments = unique (sort_fragments fragments)"

text \<open>
  \<^verbatim>\<open>maximumLikelihoodEstimate\<close> (MLE.h) is not part of DistanceEst.cpp; it is a parameter of the
  model. Its arguments are \<open>first\<close>, \<open>last\<close>, the fragment sizes, \<open>len0\<close>, \<open>len1\<close> and
  \<open>numPairs\<close>. \<open>numPairs\<close> is the \<^verbatim>\<open>unsigned&\<close> output parameter of \<^verbatim>\<open>estimateDistance\<close>
  ("the number of pairs that agree with the expected distribution"), which the search may
  overwrite: the parameter returns the distance together with the value it leaves in
  \<open>numPairs\<close> (a search that takes the count by value returns it unchanged).
\<close>

type_synonym mle_args = "cint \<times> cint \<times> cint list \<times> cunsigned \<times> cunsigned \<times> cunsigned"

type_synonym 'sd MLE = "mle_args \<Rightarrow> 'sd PDF \<Rightarrow> cint \<times> cunsigned"

text \<open>
  \<^verbatim>\<open>estimateDistance\<close> up to the call of the search: it either returns (\<open>Inl\<close>, the returned
  distance and the value of \<open>numPairs\<close>) or reaches the call (\<open>Inr\<close>, with the arguments of
  the call). \<^verbatim>\<open>numPairs = fragments.size()\<close> converts a \<^verbatim>\<open>size_t\<close> to \<^verbatim>\<open>unsigned\<close>.
\<close>

definition estimateDistance_upto_MLE ::
  "opts \<Rightarrow> cunsigned \<Rightarrow> cunsigned \<Rightarrow> SAMRecord list \<Rightarrow> 'sd PDF \<Rightarrow> (cint \<times> cunsigned) + mle_args" where
  "estimateDistance_upto_MLE opt len0 len1 pairs pdf =
     (let fragments = fragmentLoop opt len0 len1 pairs [];
          fragments = removeDuplicates fragments;
          numPairs = (of_nat (length fragments) :: cunsigned)
      in if numPairs < opt_npairs opt then Inl (INT_MIN, numPairs)
         else let fragmentSizes = map (\<lambda>it. snd it - fst it) fragments
              in Inr (- opt_k opt + 1, getMaxIdx pdf, fragmentSizes, len0, len1, numPairs))"

definition estimateDistance ::
  "opts \<Rightarrow> 'sd MLE \<Rightarrow> cunsigned \<Rightarrow> cunsigned \<Rightarrow> SAMRecord list \<Rightarrow> 'sd PDF \<Rightarrow> cint \<times> cunsigned" where
  "estimateDistance opt maximumLikelihoodEstimate len0 len1 pairs pdf =
     (case estimateDistance_upto_MLE opt len0 len1 pairs pdf of
        Inl r \<Rightarrow> r
      | Inr args \<Rightarrow> maximumLikelihoodEstimate args pdf)"


section \<open>Contig identifiers and estimates\<close>

text \<open>The fatal exits of the program, and the failures of its assertions and subscripts.\<close>

datatype error =
    NotSorted string
  | UnexpectedID string
  | EmptyHistogram
  | NoSQRecords
  | AssertionFailed
  | SubscriptOutOfRange

text \<open>
  Modelled from the spec: the contig-identifier registry (ContigID.h is not part of this
  file). "Identities are assigned once, in first-seen order, and the identifier space is
  frozen (locked) after the header/legend is fully read -- no further identities may be
  created afterward." The registry is the list of the names of the header; the identifier of
  a name is the index of its first occurrence, and a name that is not registered cannot be
  converted once the registry is locked.
\<close>

fun ContigID :: "string list \<Rightarrow> string \<Rightarrow> nat option" where
  "ContigID [] name = None"
| "ContigID (n # names) name =
     (if n = name then Some 0 else map_option Suc (ContigID names name))"

text \<open>
  A \<^verbatim>\<open>ContigNode\<close> is a contig identifier with a sense bit. ContigNode.h is not part of
  DistanceEst.cpp; the order of the keys of a \<^verbatim>\<open>map<ContigNode, _>\<close> is taken to be that of the
  pair (identifier, sense).
\<close>

type_synonym ContigNode = "nat \<times> bool"

definition node_id :: "ContigNode \<Rightarrow> nat" where
  "node_id n = fst n"

definition sense :: "ContigNode \<Rightarrow> bool" where
  "sense n = snd n"

definition flip :: "ContigNode \<Rightarrow> ContigNode" where
  "flip n = (fst n, \<not> snd n)"

record 'sd Estimate =
  est_contig :: ContigNode
  est_distance :: cint
  est_numPairs :: cunsigned
  est_stdDev :: 'sd

text \<open>
  The collaborators that are declared in headers outside DistanceEst.cpp: the maximum-likelihood
  search, the output operators of \<^verbatim>\<open>ContigNode\<close> and \<^verbatim>\<open>Estimate\<close> (the latter
  depends on \<^verbatim>\<open>opt::format\<close>, which is fixed before any estimate is written), the
  constructor of \<^verbatim>\<open>PDF\<close> from a histogram (a list of bins, see below), the rule by which
  \<^verbatim>\<open>trimFraction(0.0001)\<close> keeps a bin, and the two diagnostic messages of \<^verbatim>\<open>main\<close>
  that print floating-point statistics.
\<close>

record 'sd extern =
  maximumLikelihoodEstimate :: "'sd MLE"
  print_ContigNode :: "ContigNode \<Rightarrow> string"
  print_Estimate :: "'sd Estimate \<Rightarrow> string"
  make_PDF :: "(cint \<times> nat) list \<Rightarrow> 'sd PDF"
  trim_keeps :: "(cint \<times> nat) list \<Rightarrow> cint \<Rightarrow> bool"
  print_orientation :: "cunsigned \<Rightarrow> cunsigned \<Rightarrow> cunsigned \<Rightarrow> string"
  print_stats :: "(cint \<times> nat) list \<Rightarrow> string"

text \<open>The decimal output of an unsigned number (\<^verbatim>\<open>ostream << unsigned\<close>).\<close>

definition digit :: "nat \<Rightarrow> char" where
  "digit d = ''0123456789'' ! d"

fun print_unsigned :: "nat \<Rightarrow> string" where
  "print_unsigned n =
     (if n < 10 then [digit n] else print_unsigned (n div 10) @ [digit (n mod 10)])"

section \<open>writeEstimate\<close>

text \<open>
  The two output streams are strings: the first component is the stream \<^verbatim>\<open>out\<close> that
  \<^verbatim>\<open>writeEstimate\<close> is given, the second is \<^verbatim>\<open>cerr\<close>. \<^verbatim>\<open>pairs.size() < opt::npairs\<close>
  compares as \<^verbatim>\<open>size_t\<close>; \<^verbatim>\<open>est.numPairs >= opt::npairs\<close> compares as \<^verbatim>\<open>unsigned\<close>.
\<close>

definition writeEstimate ::
  "opts \<Rightarrow> 'sd extern \<Rightarrow> string \<times> string \<Rightarrow> ContigNode \<Rightarrow> ContigNode \<Rightarrow> cunsigned \<Rightarrow> cunsigned
     \<Rightarrow> SAMRecord list \<Rightarrow> 'sd PDF \<Rightarrow> string \<times> string" where
  "writeEstimate opt ext io id0 id1 len0 len1 pairs pdf =
     (let out = fst io; cerr = snd io in
      if length pairs < unat (opt_npairs opt) then (out, cerr)
      else
        let r = estimateDistance opt (maximumLikelihoodEstimate ext) len0 len1 pairs pdf;
            est = \<lparr>est_contig = id1, est_distance = fst r, est_numPairs = snd r,
                   est_stdDev = getSampleStdDev pdf (snd r)\<rparr>
        in if opt_npairs opt \<le> est_numPairs est then
             (if opt_dot opt then
                let est = (if sense id0 then est\<lparr>est_contig := flip (est_contig est)\<rparr> else est)
                in (out @ [CHR 0x22] @ print_ContigNode ext id0 @ [CHR 0x22] @ '' -> ''
                      @ print_Estimate ext est @ [CHR 0x0A], cerr)
              else (out @ '' '' @ print_Estimate ext est, cerr))
           else if 1 < opt_verbose opt then
             (out, cerr @ ''warning: '' @ print_ContigNode ext id0 @ '','' @ print_ContigNode ext id1
                     @ '' '' @ print_unsigned (unat (est_numPairs est)) @ '' of ''
                     @ print_unsigned (length pairs)
                     @ '' pairs fit the expected distribution'' @ [CHR 0x0A])
           else (out, cerr))"

section \<open>writeEstimates\<close>

text \<open>
  \<^verbatim>\<open>map<ContigNode, AlignPairVec>\<close> is an association list with distinct keys in
  increasing order; \<open>map_push_back k v m\<close> is \<^verbatim>\<open>m[k].push_back(v)\<close>.
\<close>

type_synonym Pairs = "(ContigNode \<times> SAMRecord list) list"

fun map_push_back :: "ContigNode \<Rightarrow> SAMRecord \<Rightarrow> Pairs \<Rightarrow> Pairs" where
  "map_push_back k v [] = [(k, [v])]"
| "map_push_back k v ((k', vs) # m) =
     (if k = k' then (k', vs @ [v]) # m
      else if k < k' then (k, [v]) # (k', vs) # m
      else (k', vs) # map_push_back k v m)"

text \<open>
  The loop that fills \<^verbatim>\<open>dataMap[2]\<close> (the first component is \<^verbatim>\<open>dataMap[0]\<close>).
  \<^verbatim>\<open>ContigNode(it->mrnm, _)\<close> converts the name of the mate contig.
\<close>

fun fillDataMap :: "string list \<Rightarrow> SAMRecord list \<Rightarrow> Pairs \<times> Pairs \<Rightarrow> error + (Pairs \<times> Pairs)" where
  "fillDataMap names [] dataMap = Inr dataMap"
| "fillDataMap names (it # pairs) dataMap =
     (case ContigID names (mrnm it) of
        None \<Rightarrow> Inl (UnexpectedID (mrnm it))
      | Some i \<Rightarrow>
          let node = (i, isReverse it = isMateReverse it) in
          fillDataMap names pairs
            (if isReverse it then (fst dataMap, map_push_back node it (snd dataMap))
             else (map_push_back node it (fst dataMap), snd dataMap)))"

text \<open>
  The inner loop over one of the two maps. \<^verbatim>\<open>lengthVec[it->first.id()]\<close> is an unchecked
  subscript; out of range it is an error of the model.
\<close>

fun writeEstimateLoop ::
  "opts \<Rightarrow> 'sd extern \<Rightarrow> cunsigned list \<Rightarrow> 'sd PDF \<Rightarrow> ContigNode \<Rightarrow> cunsigned \<Rightarrow> Pairs
     \<Rightarrow> string \<times> string \<Rightarrow> error + (string \<times> string)" where
  "writeEstimateLoop opt ext lengthVec pdf id0 len0 [] io = Inr io"
| "writeEstimateLoop opt ext lengthVec pdf id0 len0 (it # x) io =
     (if node_id (fst it) < length lengthVec then
        writeEstimateLoop opt ext lengthVec pdf id0 len0 x
          (writeEstimate opt ext io id0 (fst it) len0 (lengthVec ! node_id (fst it)) (snd it) pdf)
      else Inl SubscriptOutOfRange)"

text \<open>
  The streams of \<^verbatim>\<open>writeEstimates\<close> are \<^verbatim>\<open>out\<close>, the local \<^verbatim>\<open>ss\<close> and \<^verbatim>\<open>cerr\<close>.
  \<open>senseLoop\<close> is one iteration of the loop over \<open>sense0\<close>: \<^verbatim>\<open>writeEstimate\<close> writes to
  \<^verbatim>\<open>out\<close> in dot format and to \<^verbatim>\<open>ss\<close> otherwise.
\<close>

definition senseLoop ::
  "opts \<Rightarrow> 'sd extern \<Rightarrow> cunsigned list \<Rightarrow> 'sd PDF \<Rightarrow> nat \<Rightarrow> cunsigned \<Rightarrow> Pairs \<times> Pairs \<Rightarrow> bool
     \<Rightarrow> string \<times> string \<times> string \<Rightarrow> error + (string \<times> string \<times> string)" where
  "senseLoop opt ext lengthVec pdf id0 len0 dataMap sense0 st =
     (let out = fst st; ss = fst (snd st); cerr = snd (snd st);
          ss = (if \<not> opt_dot opt \<and> sense0 then ss @ '' ;'' else ss);
          x = (if sense0 \<noteq> opt_rf opt then snd dataMap else fst dataMap)
      in case writeEstimateLoop opt ext lengthVec pdf (id0, sense0) len0 x
                (if opt_dot opt then out else ss, cerr) of
           Inl e \<Rightarrow> Inl e
         | Inr io \<Rightarrow>
             Inr (if opt_dot opt then (fst io, ss, snd io) else (out, fst io, snd io)))"

definition writeEstimates ::
  "opts \<Rightarrow> 'sd extern \<Rightarrow> string list \<Rightarrow> string \<times> string \<Rightarrow> SAMRecord list \<Rightarrow> cunsigned list \<Rightarrow> 'sd PDF
     \<Rightarrow> error + (string \<times> string)" where
  "writeEstimates opt ext names io pairs lengthVec pdf =
     (if pairs = [] then Inl AssertionFailed
      else case ContigID names (rname (hd pairs)) of
        None \<Rightarrow> Inl (UnexpectedID (rname (hd pairs)))
      | Some id0 \<Rightarrow>
          if \<not> id0 < length lengthVec then Inl AssertionFailed
          else
            let len0 = lengthVec ! id0 in
            if len0 < opt_seedLen opt then Inr io
            else
              let ss = (if \<not> opt_dot opt then rname (hd pairs) else [])
              in case fillDataMap names pairs ([], []) of
                   Inl e \<Rightarrow> Inl e
                 | Inr dataMap \<Rightarrow>
                    (case senseLoop opt ext lengthVec pdf id0 len0 dataMap False (fst io, ss, snd io) of
                       Inl e \<Rightarrow> Inl e
                     | Inr st \<Rightarrow>
                        (case senseLoop opt ext lengthVec pdf id0 len0 dataMap True st of
                           Inl e \<Rightarrow> Inl e
                         | Inr st \<Rightarrow>
                             Inr (if \<not> opt_dot opt
                                  then fst st @ fst (snd st) @ [CHR 0x0A]
                                  else fst st,
                                  snd (snd st)))))"

text \<open>
  The text of the links of one sense in an adjacency line: each estimate that
  \<^verbatim>\<open>writeEstimate\<close> writes is preceded by a space.
\<close>

definition adj_links :: "'sd extern \<Rightarrow> 'sd Estimate list \<Rightarrow> string" where
  "adj_links ext ests = concat (map (\<lambda>est. '' '' @ print_Estimate ext est) ests)"

section \<open>The fragment-size histogram\<close>

text \<open>
  Modelled from the spec: the class Histogram (Histogram.h is not part of DistanceEst.cpp), "a
  normalized histogram over integer fragment-size bins supporting ... negation (mirrors all
  bins and their signs), outlier trimming (removes a given fraction of mass ...), and
  arithmetic range-count queries". A histogram is the list of its bins, each an \<^verbatim>\<open>int\<close> key
  with its count; \<open>hist_count h lo hi\<close> is the number of samples whose key is in the closed
  range from \<open>lo\<close> to \<open>hi\<close>, and \<open>hist_size\<close> the number of all samples.
\<close>

type_synonym Histogram = "(cint \<times> nat) list"

definition hist_count :: "Histogram \<Rightarrow> cint \<Rightarrow> cint \<Rightarrow> nat" where
  "hist_count h lo hi =
     sum_list (map snd (filter (\<lambda>bin. sint lo \<le> sint (fst bin) \<and> sint (fst bin) \<le> sint hi) h))"

definition hist_size :: "Histogram \<Rightarrow> nat" where
  "hist_size h = sum_list (map snd h)"

text \<open>
  Modelled from the spec: \<^verbatim>\<open>Histogram::negate\<close>, "negate every bin of the histogram
  (mapping a value v to -v)".
\<close>

definition negate :: "Histogram \<Rightarrow> Histogram" where
  "negate h = map (\<lambda>bin. (- fst bin, snd bin)) h"

text \<open>
  Modelled from the spec: \<^verbatim>\<open>Histogram::eraseNegative\<close>, "erase all histogram bins with
  negative keys".
\<close>

definition eraseNegative :: "Histogram \<Rightarrow> Histogram" where
  "eraseNegative h = filter (\<lambda>bin. 0 \<le> sint (fst bin)) h"

text \<open>
  Modelled from the spec: \<^verbatim>\<open>Histogram::trimFraction\<close>, "trim a small fixed fraction ...
  of the remaining mass from the extreme tail to suppress outliers". Trimming removes bins;
  which bins stay is decided from a floating-point cumulative mass and is the parameter
  \<open>keeps\<close> of the model.
\<close>

definition trimFraction :: "(Histogram \<Rightarrow> cint \<Rightarrow> bool) \<Rightarrow> Histogram \<Rightarrow> Histogram" where
  "trimFraction keeps h = filter (\<lambda>bin. keeps h (fst bin)) h"

definition INT_MAX :: cint where
  "INT_MAX = 2 ^ 31 - 1"

text \<open>
  Lines 353 to 367 of \<^verbatim>\<open>main\<close>: the orientation of the library. \<^verbatim>\<open>numRF\<close> and
  \<^verbatim>\<open>numFR\<close> are \<^verbatim>\<open>unsigned\<close>. The result is the options, with \<^verbatim>\<open>opt::rf\<close> set or not,
  and the histogram, negated or not.
\<close>

definition numRF :: "Histogram \<Rightarrow> cunsigned" where
  "numRF distanceHist = of_nat (hist_count distanceHist INT_MIN 0)"

definition numFR :: "Histogram \<Rightarrow> cunsigned" where
  "numFR distanceHist = of_nat (hist_count distanceHist 1 INT_MAX)"

definition detectOrientation :: "opts \<Rightarrow> Histogram \<Rightarrow> opts \<times> Histogram" where
  "detectOrientation opt distanceHist =
     (if numFR distanceHist < numRF distanceHist
      then (opt\<lparr>opt_rf := True\<rparr>, negate distanceHist)
      else (opt, distanceHist))"

text \<open>Lines 369 and 370: the histogram \<open>h\<close> from which the empirical PDF is built.\<close>

definition trimmedHistogram :: "(Histogram \<Rightarrow> cint \<Rightarrow> bool) \<Rightarrow> Histogram \<Rightarrow> Histogram" where
  "trimmedHistogram keeps distanceHist = trimFraction keeps (eraseNegative distanceHist)"

section \<open>The loop of main\<close>

text \<open>The test of lines 398 to 400: the alignments that the loop skips.\<close>

definition skipped :: "opts \<Rightarrow> SAMRecord \<Rightarrow> bool" where
  "skipped opt sam \<longleftrightarrow>
     isUnmapped sam \<or> isMateUnmapped sam \<or> \<not> isPaired sam \<or> rname sam = mrnm sam
     \<or> mapq sam < unat (opt_minMapQ opt)"

text \<open>
  The critical section \<^verbatim>\<open>in\<close> (lines 391 to 426). The alignment stream is the list of the
  records still to be read; reading from the empty list is the end of file. The result is
  \<^verbatim>\<open>privatePairs\<close>, then the rest of the stream, \<^verbatim>\<open>pairs\<close> and \<^verbatim>\<open>seen\<close>. \<^verbatim>\<open>seen[id]\<close> is
  an unchecked subscript; out of range it is an error of the model.
\<close>

type_synonym batch = "SAMRecord list \<times> SAMRecord list \<times> SAMRecord list \<times> bool list"

fun nextBatch ::
  "opts \<Rightarrow> string list \<Rightarrow> SAMRecord list \<Rightarrow> SAMRecord list \<Rightarrow> bool list \<Rightarrow> error + batch" where
  "nextBatch opt names [] pairs seen = Inr (pairs, [], [], seen)"
| "nextBatch opt names (sam # inp) pairs seen =
     (if skipped opt sam then nextBatch opt names inp pairs seen
      else if pairs = [] then Inl AssertionFailed
      else if rname sam = rname (hd pairs) then nextBatch opt names inp (pairs @ [sam]) seen
      else case ContigID names (rname sam) of
             None \<Rightarrow> Inl (UnexpectedID (rname sam))
           | Some i \<Rightarrow>
               if \<not> i < length seen then Inl SubscriptOutOfRange
               else if seen ! i then Inl (NotSorted (rname sam))
               else Inr (pairs, inp, [sam], seen[i := True]))"

text \<open>
  The loop of lines 388 to 431, run by one thread: take the next batch, stop when it is
  empty, otherwise write its estimates. \<open>Inl\<close> is a fatal exit.
\<close>

function mainLoop ::
  "opts \<Rightarrow> 'sd extern \<Rightarrow> string list \<Rightarrow> cunsigned list \<Rightarrow> 'sd PDF
     \<Rightarrow> SAMRecord list \<Rightarrow> SAMRecord list \<Rightarrow> bool list \<Rightarrow> string \<times> string \<Rightarrow> error + (string \<times> string)" where
  "mainLoop opt ext names contigLens pdf inp pairs seen io =
     (case nextBatch opt names inp pairs seen of
        Inl e \<Rightarrow> Inl e
      | Inr b \<Rightarrow>
          if fst b = [] then Inr io
          else case writeEstimates opt ext names io (fst b) contigLens pdf of
                 Inl e \<Rightarrow> Inl e
               | Inr io' \<Rightarrow>
                   mainLoop opt ext names contigLens pdf
                     (fst (snd b)) (fst (snd (snd b))) (snd (snd (snd b))) io')"
  by pat_completeness auto
termination
proof (relation "measure (\<lambda>(opt, ext, names, contigLens, pdf, inp, pairs, seen, io).
                   length inp + (if pairs = [] then 0 else 1))", goal_cases)
  case 1
  show ?case by simp
next
  case (2 opt ext names contigLens pdf inp pairs seen io b io')
  have shorter: "nextBatch opt names inp pairs seen = Inr b \<Longrightarrow> fst b \<noteq> [] \<Longrightarrow>
      length (fst (snd b)) + (if fst (snd (snd b)) = [] then 0 else 1)
        < length inp + (if pairs = [] then 0 else (1::nat))" for inp pairs seen
  proof (induction inp arbitrary: pairs seen)
    case Nil
    then show ?case by auto
  next
    case (Cons sam inp)
    show ?case
    proof (cases "skipped opt sam")
      case True
      with Cons.prems have "nextBatch opt names inp pairs seen = Inr b" by simp
      from Cons.IH [OF this Cons.prems(2)] show ?thesis by simp
    next
      case False
      note ns = this
      show ?thesis
      proof (cases "pairs = []")
        case True
        with ns Cons.prems show ?thesis by simp
      next
        case False
        note ne = this
        show ?thesis
        proof (cases "rname sam = rname (hd pairs)")
          case True
          with ns ne Cons.prems have "nextBatch opt names inp (pairs @ [sam]) seen = Inr b"
            by simp
          from Cons.IH [OF this Cons.prems(2)] ne show ?thesis by simp
        next
          case False
          with ns ne Cons.prems show ?thesis
            by (auto split: option.splits if_splits)
        qed
      qed
    qed
  qed
  from shorter [OF 2(1) 2(2)] show ?case by simp
qed

text \<open>
  The anchors that open a batch inside the loop, in the order of the stream: \<open>c\<close> is the
  anchor of the batch that is open, and an alignment that is not skipped and has another
  anchor closes that batch and opens the next.
\<close>

fun opened :: "opts \<Rightarrow> string \<Rightarrow> SAMRecord list \<Rightarrow> string list" where
  "opened opt c [] = []"
| "opened opt c (sam # inp) =
     (if skipped opt sam \<or> rname sam = c then opened opt c inp
      else rname sam # opened opt (rname sam) inp)"

section \<open>main\<close>

text \<open>
  \<^verbatim>\<open>main\<close> from line 340 on, after the options have been read. The header of the alignment
  file has been parsed by \<^verbatim>\<open>readContigLengths\<close> into the registry \<open>names\<close> and the
  lengths \<open>contigLens\<close>, the histogram file into \<open>distanceHist\<close>, and \<open>inp\<close> is the list
  of the alignment records. The result is the text written to \<^verbatim>\<open>out\<close> and to \<^verbatim>\<open>cerr\<close>
  when \<^verbatim>\<open>main\<close> returns 0, and \<open>Inl\<close> when the program exits with a failure or aborts.
\<close>

definition preamble :: "opts \<Rightarrow> string" where
  "preamble opt =
     (if opt_dot opt then
        ''digraph dist {'' @ [CHR 0x0A] @ ''graph [k='' @ print_unsigned (unat (opt_k opt))
          @ '' s='' @ print_unsigned (unat (opt_seedLen opt))
          @ '' n='' @ print_unsigned (unat (opt_npairs opt)) @ '']'' @ [CHR 0x0A]
      else [])"

definition orientationMessages :: "opts \<Rightarrow> 'sd extern \<Rightarrow> Histogram \<Rightarrow> string" where
  "orientationMessages opt ext distanceHist =
     (if 0 < opt_verbose opt
      then print_orientation ext (numFR distanceHist) (numRF distanceHist)
             (of_nat (hist_size distanceHist))
      else [])
     @ (if numFR distanceHist < numRF distanceHist
        then ''The mate pairs of this library are oriented reverse-forward (RF).'' @ [CHR 0x0A]
        else [])"

definition main ::
  "opts \<Rightarrow> 'sd extern \<Rightarrow> string list \<Rightarrow> cunsigned list \<Rightarrow> Histogram \<Rightarrow> SAMRecord list
     \<Rightarrow> error + (string \<times> string)" where
  "main opt0 ext names contigLens distanceHist0 inp =
     (let out = preamble opt0 in
      if contigLens = [] then Inl NoSQRecords
      else if distanceHist0 = [] then Inl EmptyHistogram
      else
        let cerr = orientationMessages opt0 ext distanceHist0;
            opt = fst (detectOrientation opt0 distanceHist0);
            distanceHist = snd (detectOrientation opt0 distanceHist0);
            h = trimmedHistogram (trim_keeps ext) distanceHist;
            cerr = (if 0 < opt_verbose opt then cerr @ print_stats ext h else cerr);
            empiricalPDF = make_PDF ext h;
            seen = replicate (length contigLens) False
        in case inp of
             [] \<Rightarrow> Inl AssertionFailed
           | sam # inp \<Rightarrow>
              (case mainLoop opt ext names contigLens empiricalPDF inp [sam] seen (out, cerr) of
                 Inl e \<Rightarrow> Inl e
               | Inr io \<Rightarrow>
                   Inr (if opt_dot opt then fst io @ ''}'' @ [CHR 0x0A] else fst io, snd io)))"

section \<open>Example inputs\<close>

text \<open>
  Three contigs of length 1000, the histogram of scenario A of the specification, and
  forward-reverse read pairs between the contigs. The stand-ins for the collaborators are a
  search that answers distance 5 and leaves the pair count as it is, and one that finds no
  maximum: it answers \<^verbatim>\<open>INT_MIN\<close> with no agreeing pair; estimates are printed as contig,
  distance and pair count.
\<close>

definition ex_opt :: opts where
  "ex_opt = \<lparr>opt_k = 20, opt_dot = False, opt_seedLen = 100, opt_npairs = 1,
              opt_minMapQ = 1, opt_rf = False, opt_verbose = 0\<rparr>"

definition ex_opt_verbose :: opts where
  "ex_opt_verbose = \<lparr>opt_k = 20, opt_dot = False, opt_seedLen = 100, opt_npairs = 2,
                      opt_minMapQ = 1, opt_rf = False, opt_verbose = 2\<rparr>"

definition ex_pdf :: "unit PDF" where
  "ex_pdf = \<lparr>getMaxIdx = 600, getSampleStdDev = (\<lambda>n. ())\<rparr>"

definition ex_print_node :: "ContigNode \<Rightarrow> string" where
  "ex_print_node n = print_unsigned (fst n) @ (if snd n then ''-'' else ''+'')"

definition ex_print_estimate :: "unit Estimate \<Rightarrow> string" where
  "ex_print_estimate e =
     ex_print_node (est_contig e) @ '','' @ print_unsigned (unat (est_distance e))
       @ '','' @ print_unsigned (unat (est_numPairs e))"

definition ex_ext :: "unit extern" where
  "ex_ext = \<lparr>maximumLikelihoodEstimate = (\<lambda>args pdf. (5, snd (snd (snd (snd (snd args)))))),
              print_ContigNode = ex_print_node,
              print_Estimate = ex_print_estimate,
              make_PDF = (\<lambda>h. ex_pdf),
              trim_keeps = (\<lambda>h key. True),
              print_orientation = (\<lambda>fr rf total. []),
              print_stats = (\<lambda>h. [])\<rparr>"


definition ex_opt_three :: opts where
  "ex_opt_three = \<lparr>opt_k = 20, opt_dot = False, opt_seedLen = 100, opt_npairs = 3,
                    opt_minMapQ = 1, opt_rf = False, opt_verbose = 0\<rparr>"

definition ex_names :: "string list" where
  "ex_names = [''A'', ''B'', ''C'']"

definition ex_lens :: "cunsigned list" where
  "ex_lens = [1000, 1000, 1000]"

definition ex_hist :: Histogram where
  "ex_hist = [(400, 1), (500, 2), (600, 1)]"


definition ex_rec :: "string \<Rightarrow> string \<Rightarrow> nat \<Rightarrow> SAMRecord" where
  "ex_rec a b q =
     \<lparr>rname = a, mrnm = b, mapq = q, isUnmapped = False, isMateUnmapped = False,
      isPaired = True, isReverse = False, isMateReverse = True,
      targetAtQueryStart = 900, mateTargetAtQueryStart = 50\<rparr>"

definition ex_rec_at :: "string \<Rightarrow> string \<Rightarrow> cint \<Rightarrow> SAMRecord" where
  "ex_rec_at a b pos = (ex_rec a b 60)\<lparr>targetAtQueryStart := pos\<rparr>"

section \<open>Properties of estimateDistance\<close>

lemma fragmentLoop_map:
  "fragmentLoop opt len0 len1 pairs fragments = fragments @ map (makeFragment opt len0 len1) pairs"
  by (induction pairs arbitrary: fragments) simp_all

lemma unique_remdups_adj: "unique xs = remdups_adj xs"
  by (induction xs rule: unique.induct) simp_all

lemma inj_frag_key: "inj frag_key"
  by (auto simp: inj_on_def frag_key_def prod_eq_iff intro: signed_word_eqI)

lemma sorted_key_unique:
  "sorted (map frag_key xs) \<Longrightarrow> sorted (map frag_key (unique xs))"
proof -
  assume s: "sorted (map frag_key xs)"
  have "map frag_key (remdups_adj xs) = remdups_adj (map frag_key xs)"
    by (rule remdups_adj_map_injective [OF inj_frag_key, symmetric])
  with s show ?thesis
    by (simp add: unique_remdups_adj sorted_remdups_adj)
qed

lemma remdups_adj_twice: "remdups_adj (remdups_adj ys) = remdups_adj ys"
proof (induction ys rule: remdups_adj.induct)
  case (3 x y xs)
  show ?case
  proof (cases "x = y")
    case True
    with 3 show ?thesis by simp
  next
    case False
    have "remdups_adj (y # xs) = y # tl (remdups_adj (y # xs))" by simp
    then obtain zs where "remdups_adj (y # xs) = y # zs" ..
    with False 3 show ?thesis by simp
  qed
qed simp_all

lemma unique_idem: "unique (unique xs) = unique xs"
  by (simp add: unique_remdups_adj remdups_adj_twice)

text \<open>
  C8. The deduplication step of \<^verbatim>\<open>estimateDistance\<close> (sort the fragments, then erase adjacent
  equal pairs) is idempotent: applied to its own output it returns that output unchanged.
\<close>

theorem removeDuplicates_idempotent:
  "removeDuplicates (removeDuplicates fragments) = removeDuplicates fragments"
proof -
  have "sorted (map frag_key (sort_fragments fragments))"
    by (simp add: sort_fragments_def)
  then have "sorted (map frag_key (unique (sort_fragments fragments)))"
    by (rule sorted_key_unique)
  then have "sort_fragments (unique (sort_fragments fragments)) = unique (sort_fragments fragments)"
    by (simp add: sort_fragments_def sort_key_id_if_sorted)
  then show ?thesis
    by (simp add: removeDuplicates_def unique_idem)
qed

text \<open>
  C1. Every alignment is converted with \<open>len0 - a0\<close> in place of \<open>a0\<close> when the anchor
  alignment is reversed and \<open>len1 - a1\<close> in place of \<open>a1\<close> when the mate alignment is
  forward; the fragment is \<open>(a1, len1 + a0)\<close> when \<^verbatim>\<open>opt::rf\<close> is set and \<open>(a0, len0 + a1)\<close>
  otherwise. The arithmetic is that of the program, 32-bit and wrapping.
\<close>

theorem fragment_model:
  "fragmentLoop opt len0 len1 pairs [] =
     map (\<lambda>it.
            case (isReverse it, isMateReverse it, opt_rf opt) of
              (False, True, False) \<Rightarrow>
                (targetAtQueryStart it, len0 + mateTargetAtQueryStart it)
            | (False, False, False) \<Rightarrow>
                (targetAtQueryStart it, len0 + (len1 - mateTargetAtQueryStart it))
            | (True, True, False) \<Rightarrow>
                (len0 - targetAtQueryStart it, len0 + mateTargetAtQueryStart it)
            | (True, False, False) \<Rightarrow>
                (len0 - targetAtQueryStart it, len0 + (len1 - mateTargetAtQueryStart it))
            | (False, True, True) \<Rightarrow>
                (mateTargetAtQueryStart it, len1 + targetAtQueryStart it)
            | (False, False, True) \<Rightarrow>
                (len1 - mateTargetAtQueryStart it, len1 + targetAtQueryStart it)
            | (True, True, True) \<Rightarrow>
                (mateTargetAtQueryStart it, len1 + (len0 - targetAtQueryStart it))
            | (True, False, True) \<Rightarrow>
                (len1 - mateTargetAtQueryStart it, len1 + (len0 - targetAtQueryStart it)))
         pairs"
  by (simp add: fragmentLoop_map makeFragment_def Let_def)

text \<open>
  Read as integers (a contig length below \<open>2 ^ 31\<close> is read by \<open>sint\<close> as itself), the
  fragment is the one of the specification whenever no difference or sum leaves the range
  of \<^verbatim>\<open>int\<close>.
\<close>

lemma sint_sum_in_range:
  "- (2 ^ 31) \<le> sint (x :: cint) + sint (y :: cint) \<Longrightarrow> sint x + sint y < 2 ^ 31
     \<Longrightarrow> sint (x + y) = sint x + sint y"
  by (simp add: sint_word_add signed_take_bit_int_eq_self)

lemma sint_diff_in_range:
  "- (2 ^ 31) \<le> sint (x :: cint) - sint (y :: cint) \<Longrightarrow> sint x - sint y < 2 ^ 31
     \<Longrightarrow> sint (x - y) = sint x - sint y"
  by (simp add: sint_word_diff signed_take_bit_int_eq_self)

lemma makeFragment_int:
  assumes "in_int (sint len0 - sint (targetAtQueryStart it))"
    and "in_int (sint len1 - sint (mateTargetAtQueryStart it))"
    and "in_int (sint len1 + (if isReverse it then sint len0 - sint (targetAtQueryStart it)
                              else sint (targetAtQueryStart it)))"
    and "in_int (sint len0 + (if isMateReverse it then sint (mateTargetAtQueryStart it)
                              else sint len1 - sint (mateTargetAtQueryStart it)))"
  shows "map_prod sint sint (makeFragment opt len0 len1 it) =
           (let a0 = (if isReverse it then sint len0 - sint (targetAtQueryStart it)
                      else sint (targetAtQueryStart it));
                a1 = (if isMateReverse it then sint (mateTargetAtQueryStart it)
                      else sint len1 - sint (mateTargetAtQueryStart it))
            in if opt_rf opt then (a1, sint len1 + a0) else (a0, sint len0 + a1))"
proof -
  have d0: "sint (len0 - targetAtQueryStart it) = sint len0 - sint (targetAtQueryStart it)"
    using assms(1) by (simp add: in_int_def sint_diff_in_range)
  have d1: "sint (len1 - mateTargetAtQueryStart it) = sint len1 - sint (mateTargetAtQueryStart it)"
    using assms(2) by (simp add: in_int_def sint_diff_in_range)
  have s0: "sint (len1 + (if isReverse it then len0 - targetAtQueryStart it else targetAtQueryStart it))
            = sint len1 + (if isReverse it then sint len0 - sint (targetAtQueryStart it)
                           else sint (targetAtQueryStart it))"
    using assms(3) d0 by (auto simp: in_int_def sint_sum_in_range)
  have s1: "sint (len0 + (if isMateReverse it then mateTargetAtQueryStart it
                          else len1 - mateTargetAtQueryStart it))
            = sint len0 + (if isMateReverse it then sint (mateTargetAtQueryStart it)
                           else sint len1 - sint (mateTargetAtQueryStart it))"
    using assms(4) d1 by (auto simp: in_int_def sint_sum_in_range)
  show ?thesis
    using d0 d1 s0 s1 by (auto simp: makeFragment_def Let_def)
qed

lemma of_nat_less_unsigned:
  "n < unat (w :: cunsigned) \<Longrightarrow> (of_nat n :: cunsigned) < w \<and> unat (of_nat n :: cunsigned) = n"
proof -
  assume n: "n < unat w"
  have "unat w < 2 ^ 32" using unsigned_less [of w, where 'a = nat] by simp
  with n have "n < 2 ^ 32" by simp
  then have "unat (of_nat n :: cunsigned) = n" by (simp add: unat_of_nat)
  with n show ?thesis by (simp add: word_less_nat_alt)
qed

text \<open>
  After the sort equal fragments are adjacent, so \<^verbatim>\<open>unique\<close> leaves one of each: the
  number of fragments that remain is the number of distinct fragments.
\<close>

lemma distinct_remdups_adj_sorted:
  "sorted (xs :: 'a :: linorder list) \<Longrightarrow> distinct (remdups_adj xs)"
proof (induction xs rule: remdups_adj.induct)
  case (3 x y xs)
  show ?case
  proof (cases "x = y")
    case True
    with 3 show ?thesis by simp
  next
    case False
    from "3.prems" have "\<forall>z \<in> set (y # xs). y \<le> z" and xy: "x \<le> y"
      by auto
    with False have "x \<notin> set (y # xs)" by auto
    with False 3 show ?thesis by simp
  qed
qed simp_all

lemma distinct_removeDuplicates: "distinct (removeDuplicates fragments)"
proof -
  let ?ys = "sort_key frag_key fragments"
  have "distinct (remdups_adj (map frag_key ?ys))"
    by (rule distinct_remdups_adj_sorted) simp
  then have "distinct (map frag_key (remdups_adj ?ys))"
    by (simp add: remdups_adj_map_injective [OF inj_frag_key])
  then have "distinct (remdups_adj ?ys)"
    by (simp add: distinct_map)
  then show ?thesis
    by (simp add: removeDuplicates_def sort_fragments_def unique_remdups_adj)
qed

lemma set_removeDuplicates: "set (removeDuplicates fragments) = set fragments"
  by (simp add: removeDuplicates_def sort_fragments_def unique_remdups_adj)

lemma length_removeDuplicates: "length (removeDuplicates fragments) = card (set fragments)"
  using distinct_card [OF distinct_removeDuplicates, of fragments]
  by (simp add: set_removeDuplicates)

lemma numPairs_distinct:
  "length (removeDuplicates (fragmentLoop opt len0 len1 pairs []))
     = card (set (map (makeFragment opt len0 len1) pairs))"
  by (simp add: length_removeDuplicates fragmentLoop_map)

text \<open>
  C5. When the number of distinct fragments of a group (the fragments of its alignments,
  counted as a set) is below \<^verbatim>\<open>opt::npairs\<close>, \<^verbatim>\<open>estimateDistance\<close> returns \<^verbatim>\<open>INT_MIN\<close>
  before it reaches the call of the maximum-likelihood search, so for every search function,
  and \<open>numPairs\<close> holds the number of distinct fragments.
\<close>

theorem estimateDistance_too_few_pairs:
  assumes "card (set (map (makeFragment opt len0 len1) pairs)) < unat (opt_npairs opt)"
  shows "estimateDistance_upto_MLE opt len0 len1 pairs pdf =
           Inl (INT_MIN, of_nat (card (set (map (makeFragment opt len0 len1) pairs))))
         \<and> estimateDistance opt mle len0 len1 pairs pdf =
           (INT_MIN, of_nat (card (set (map (makeFragment opt len0 len1) pairs))))
         \<and> unat (snd (estimateDistance opt mle len0 len1 pairs pdf)) =
           card (set (map (makeFragment opt len0 len1) pairs))"
  using of_nat_less_unsigned [OF assms]
  by (simp add: estimateDistance_def estimateDistance_upto_MLE_def Let_def numPairs_distinct)

theorem estimateDistance_too_few_pairs_witness:
  "card (set (map (makeFragment ex_opt_three 1000 1000)
                [ex_rec_at ''A'' ''B'' 900, ex_rec_at ''A'' ''B'' 800, ex_rec_at ''A'' ''B'' 900])) = 2
   \<and> unat (opt_npairs ex_opt_three) = 3
   \<and> estimateDistance_upto_MLE ex_opt_three 1000 1000
        [ex_rec_at ''A'' ''B'' 900, ex_rec_at ''A'' ''B'' 800, ex_rec_at ''A'' ''B'' 900] ex_pdf
       = Inl (INT_MIN, 2)
   \<and> estimateDistance ex_opt_three (maximumLikelihoodEstimate ex_ext) 1000 1000
        [ex_rec_at ''A'' ''B'' 900, ex_rec_at ''A'' ''B'' 800, ex_rec_at ''A'' ''B'' 900] ex_pdf
       = (INT_MIN, 2)"
proof -
  let ?pairs = "[ex_rec_at ''A'' ''B'' 900, ex_rec_at ''A'' ''B'' 800, ex_rec_at ''A'' ''B'' 900]"
  have m: "map (makeFragment ex_opt_three 1000 1000) ?pairs
             = [(900, 1050), (800, 1050), (900, 1050)]"
    by (simp add: makeFragment_def ex_opt_three_def ex_rec_at_def ex_rec_def)
  have "set [(900, 1050), (800, 1050), (900, 1050)] = {(900, 1050), (800, 1050 :: cint) :: cint \<times> cint}"
    by auto
  then have a: "card (set (map (makeFragment ex_opt_three 1000 1000) ?pairs)) = 2"
    unfolding m by simp
  have b: "unat (opt_npairs ex_opt_three) = 3"
    by (simp add: ex_opt_three_def)
  have c: "card (set (map (makeFragment ex_opt_three 1000 1000) ?pairs))
             < unat (opt_npairs ex_opt_three)"
    unfolding a b by simp
  note t = estimateDistance_too_few_pairs [OF c, of ex_pdf "maximumLikelihoodEstimate ex_ext"]
  from t have d: "estimateDistance_upto_MLE ex_opt_three 1000 1000 ?pairs ex_pdf = Inl (INT_MIN, 2)"
    unfolding a by simp
  from t have e: "estimateDistance ex_opt_three (maximumLikelihoodEstimate ex_ext) 1000 1000
                    ?pairs ex_pdf = (INT_MIN, 2)"
    unfolding a by simp
  from a b d e show ?thesis by blast
qed

section \<open>Properties of the orientation detector\<close>











section \<open>Properties of writeEstimate\<close>

lemma enough_distinct_enough_pairs:
  assumes "opt_npairs opt \<le> of_nat (card (set (map (makeFragment opt len0 len1) pairs)))"
  shows "unat (opt_npairs opt) \<le> length pairs"
proof -
  let ?n = "card (set (map (makeFragment opt len0 len1) pairs))"
  from assms have "unat (opt_npairs opt) \<le> unat (of_nat ?n :: cunsigned)"
    by (simp add: word_le_nat_alt)
  also have "\<dots> \<le> ?n"
    by (simp add: unat_of_nat)
  also have "\<dots> \<le> length pairs"
    using card_length [of "map (makeFragment opt len0 len1) pairs"] by simp
  finally show ?thesis .
qed

text \<open>
  For a group whose number of distinct fragments, as held in \<open>numPairs\<close>, is at least
  \<^verbatim>\<open>opt::npairs\<close>, the result of \<^verbatim>\<open>estimateDistance\<close> is the result of the search, and
  \<^verbatim>\<open>writeEstimate\<close> leaves the primary output unchanged exactly when the pair count that the
  search leaves in \<open>numPairs\<close> is below \<^verbatim>\<open>opt::npairs\<close> (line 152).
\<close>

lemma writeEstimate_written_iff_numPairs:
  assumes "opt_npairs opt \<le> of_nat (card (set (map (makeFragment opt len0 len1) pairs)))"
  shows "estimateDistance opt (maximumLikelihoodEstimate ext) len0 len1 pairs pdf =
           maximumLikelihoodEstimate ext
             (- opt_k opt + 1, getMaxIdx pdf,
              map (\<lambda>it. snd it - fst it) (removeDuplicates (fragmentLoop opt len0 len1 pairs [])),
              len0, len1, of_nat (card (set (map (makeFragment opt len0 len1) pairs))))
             pdf
         \<and> (fst (writeEstimate opt ext (out, cerr) id0 id1 len0 len1 pairs pdf) = out)
             = (snd (estimateDistance opt (maximumLikelihoodEstimate ext) len0 len1 pairs pdf)
                  < opt_npairs opt)"
proof -
  from assms have ge: "\<not> of_nat (length (removeDuplicates (fragmentLoop opt len0 len1 pairs [])))
                          < opt_npairs opt"
    by (simp add: numPairs_distinct)
  then have call: "estimateDistance opt (maximumLikelihoodEstimate ext) len0 len1 pairs pdf =
           maximumLikelihoodEstimate ext
             (- opt_k opt + 1, getMaxIdx pdf,
              map (\<lambda>it. snd it - fst it) (removeDuplicates (fragmentLoop opt len0 len1 pairs [])),
              len0, len1, of_nat (card (set (map (makeFragment opt len0 len1) pairs))))
             pdf"
    by (simp add: estimateDistance_def estimateDistance_upto_MLE_def Let_def numPairs_distinct)
  have raw: "\<not> length pairs < unat (opt_npairs opt)"
    using enough_distinct_enough_pairs [OF assms] by simp
  have "(fst (writeEstimate opt ext (out, cerr) id0 id1 len0 len1 pairs pdf) = out)
             = (snd (estimateDistance opt (maximumLikelihoodEstimate ext) len0 len1 pairs pdf)
                  < opt_npairs opt)"
    using raw by (auto simp: writeEstimate_def Let_def)
  with call show ?thesis by blast
qed



text \<open>
  C7, as the program has it. A group with fewer than \<^verbatim>\<open>opt::npairs\<close> alignments is skipped
  by \<^verbatim>\<open>writeEstimate\<close> with nothing written to either stream. A group with at least
  \<^verbatim>\<open>opt::npairs\<close> alignments whose estimate has fewer than \<^verbatim>\<open>opt::npairs\<close> pairs is left
  out of the primary output, and when \<^verbatim>\<open>opt::verbose\<close> is greater than 1 the warning that
  names the two contigs and the two pair counts is appended to \<^verbatim>\<open>cerr\<close>.
\<close>

theorem writeEstimate_below_threshold:
  "(length pairs < unat (opt_npairs opt) \<longrightarrow>
      writeEstimate opt ext (out, cerr) id0 id1 len0 len1 pairs pdf = (out, cerr))
   \<and> (unat (opt_npairs opt) \<le> length pairs
       \<and> snd (estimateDistance opt (maximumLikelihoodEstimate ext) len0 len1 pairs pdf)
           < opt_npairs opt \<longrightarrow>
      writeEstimate opt ext (out, cerr) id0 id1 len0 len1 pairs pdf =
        (out,
         if 1 < opt_verbose opt
         then cerr @ ''warning: '' @ print_ContigNode ext id0 @ '','' @ print_ContigNode ext id1
                @ '' ''
                @ print_unsigned (unat (snd (estimateDistance opt (maximumLikelihoodEstimate ext)
                                               len0 len1 pairs pdf)))
                @ '' of '' @ print_unsigned (length pairs)
                @ '' pairs fit the expected distribution'' @ [CHR 0x0A]
         else cerr))"
  by (auto simp: writeEstimate_def Let_def)

theorem writeEstimate_below_threshold_witness:
  "length [ex_rec ''A'' ''B'' 60] < unat (opt_npairs ex_opt_verbose)
   \<and> writeEstimate ex_opt_verbose ex_ext (''A'', []) (0, False) (1, True) 1000 1000
        [ex_rec ''A'' ''B'' 60] ex_pdf = (''A'', [])
   \<and> unat (opt_npairs ex_opt_verbose) \<le> length [ex_rec ''A'' ''B'' 60, ex_rec ''A'' ''B'' 60]
   \<and> snd (estimateDistance ex_opt_verbose (maximumLikelihoodEstimate ex_ext) 1000 1000
            [ex_rec ''A'' ''B'' 60, ex_rec ''A'' ''B'' 60] ex_pdf) < opt_npairs ex_opt_verbose
   \<and> writeEstimate ex_opt_verbose ex_ext (''A'', []) (0, False) (1, True) 1000 1000
        [ex_rec ''A'' ''B'' 60, ex_rec ''A'' ''B'' 60] ex_pdf =
       (''A'', ''warning: 0+,1- 1 of 2 pairs fit the expected distribution'' @ [CHR 0x0A])"
proof -
  have a: "length [ex_rec ''A'' ''B'' 60] < unat (opt_npairs ex_opt_verbose)"
    by (simp add: ex_opt_verbose_def)
  have b: "unat (opt_npairs ex_opt_verbose) \<le> length [ex_rec ''A'' ''B'' 60, ex_rec ''A'' ''B'' 60]"
    by (simp add: ex_opt_verbose_def)
  have c: "estimateDistance ex_opt_verbose (maximumLikelihoodEstimate ex_ext) 1000 1000
            [ex_rec ''A'' ''B'' 60, ex_rec ''A'' ''B'' 60] ex_pdf = (INT_MIN, 1)"
    by code_simp
  have d: "snd (estimateDistance ex_opt_verbose (maximumLikelihoodEstimate ex_ext) 1000 1000
            [ex_rec ''A'' ''B'' 60, ex_rec ''A'' ''B'' 60] ex_pdf) < opt_npairs ex_opt_verbose"
    unfolding c by (simp add: ex_opt_verbose_def)
  have v: "1 < opt_verbose ex_opt_verbose"
    by (simp add: ex_opt_verbose_def)
  have e: "print_ContigNode ex_ext (0, False) = ''0+''" "print_ContigNode ex_ext (1, True) = ''1-''"
    by (simp_all add: ex_ext_def ex_print_node_def digit_def)
  have f: "print_unsigned (unat (1 :: cunsigned)) = ''1''"
          "print_unsigned (length [ex_rec ''A'' ''B'' 60, ex_rec ''A'' ''B'' 60]) = ''2''"
    by (simp_all add: digit_def)
  from writeEstimate_below_threshold [of "[ex_rec ''A'' ''B'' 60]" ex_opt_verbose ex_ext
              "''A''" "[]" "(0, False)" "(1, True)" 1000 1000 ex_pdf] a
  have g: "writeEstimate ex_opt_verbose ex_ext (''A'', []) (0, False) (1, True) 1000 1000
        [ex_rec ''A'' ''B'' 60] ex_pdf = (''A'', [])"
    by blast
  from writeEstimate_below_threshold [of "[ex_rec ''A'' ''B'' 60, ex_rec ''A'' ''B'' 60]"
              ex_opt_verbose ex_ext "''A''" "[]" "(0, False)" "(1, True)" 1000 1000 ex_pdf] b d
  have "writeEstimate ex_opt_verbose ex_ext (''A'', []) (0, False) (1, True) 1000 1000
          [ex_rec ''A'' ''B'' 60, ex_rec ''A'' ''B'' 60] ex_pdf =
        (''A'',
         if 1 < opt_verbose ex_opt_verbose
         then [] @ ''warning: '' @ print_ContigNode ex_ext (0, False) @ '','' @ print_ContigNode ex_ext (1, True)
                @ '' ''
                @ print_unsigned (unat (snd (estimateDistance ex_opt_verbose (maximumLikelihoodEstimate ex_ext)
                                               1000 1000 [ex_rec ''A'' ''B'' 60, ex_rec ''A'' ''B'' 60] ex_pdf)))
                @ '' of '' @ print_unsigned (length [ex_rec ''A'' ''B'' 60, ex_rec ''A'' ''B'' 60])
                @ '' pairs fit the expected distribution'' @ [CHR 0x0A]
         else [])"
    by blast
  then have h: "writeEstimate ex_opt_verbose ex_ext (''A'', []) (0, False) (1, True) 1000 1000
        [ex_rec ''A'' ''B'' 60, ex_rec ''A'' ''B'' 60] ex_pdf =
       (''A'', ''warning: 0+,1- 1 of 2 pairs fit the expected distribution'' @ [CHR 0x0A])"
    unfolding c snd_conv f e using v by simp
  from a b d g h show ?thesis by blast
qed

text \<open>
  C7, as the claim states it, fails: at verbosity 2 and \<^verbatim>\<open>opt::npairs\<close> 2, a group of one
  alignment produces no warning.
\<close>

theorem writeEstimate_no_warning_below_raw_count:
  "1 < opt_verbose ex_opt_verbose
   \<and> length [ex_rec ''A'' ''B'' 60] < unat (opt_npairs ex_opt_verbose)
   \<and> writeEstimate ex_opt_verbose ex_ext ([], []) (0, False) (1, True) 1000 1000
        [ex_rec ''A'' ''B'' 60] ex_pdf = ([], [])"
proof -
  have a: "1 < opt_verbose ex_opt_verbose"
    and b: "length [ex_rec ''A'' ''B'' 60] < unat (opt_npairs ex_opt_verbose)"
    by (simp_all add: ex_opt_verbose_def)
  from b have "writeEstimate ex_opt_verbose ex_ext ([], []) (0, False) (1, True) 1000 1000
        [ex_rec ''A'' ''B'' 60] ex_pdf = ([], [])"
    unfolding writeEstimate_def Let_def by simp
  with a b show ?thesis by blast
qed

section \<open>Properties of writeEstimates\<close>

lemma ContigID_bound: "ContigID names name = Some i \<Longrightarrow> i < length names"
  by (induction names arbitrary: i) (auto split: if_splits)

lemma ContigID_registered: "name \<in> set names \<Longrightarrow> \<exists>i. ContigID names name = Some i"
  by (induction names) auto

lemma keys_map_push_back: "fst ` set (map_push_back k v m) = insert k (fst ` set m)"
  by (induction k v m rule: map_push_back.induct) (simp_all add: insert_commute)

lemma fillDataMap_registered:
  assumes "\<forall>it \<in> set pairs. mrnm it \<in> set names"
    and "\<forall>k \<in> fst ` set (fst dataMap) \<union> fst ` set (snd dataMap). node_id k < length names"
  shows "\<exists>dataMap'. fillDataMap names pairs dataMap = Inr dataMap'
           \<and> (\<forall>k \<in> fst ` set (fst dataMap') \<union> fst ` set (snd dataMap'). node_id k < length names)"
  using assms
proof (induction pairs arbitrary: dataMap)
  case Nil
  then show ?case by simp
next
  case (Cons it pairs)
  from Cons.prems(1) obtain i where i: "ContigID names (mrnm it) = Some i"
    using ContigID_registered [of "mrnm it" names] by auto
  then have b: "i < length names" by (rule ContigID_bound)
  let ?node = "(i, isReverse it = isMateReverse it)"
  let ?dm = "if isReverse it then (fst dataMap, map_push_back ?node it (snd dataMap))
             else (map_push_back ?node it (fst dataMap), snd dataMap)"
  have "\<forall>k \<in> fst ` set (fst ?dm) \<union> fst ` set (snd ?dm). node_id k < length names"
    using Cons.prems(2) b by (auto simp: keys_map_push_back node_id_def)
  moreover have "\<forall>it \<in> set pairs. mrnm it \<in> set names"
    using Cons.prems(1) by simp
  ultimately have "\<exists>dataMap'. fillDataMap names pairs ?dm = Inr dataMap'
           \<and> (\<forall>k \<in> fst ` set (fst dataMap') \<union> fst ` set (snd dataMap'). node_id k < length names)"
    by (rule Cons.IH [rotated])
  with i show ?case by (simp add: Let_def)
qed

lemma writeEstimate_adj:
  assumes "\<not> opt_dot opt"
  shows "\<exists>ests cerr'. writeEstimate opt ext (ss, cerr) id0 id1 len0 len1 pairs pdf
                        = (ss @ adj_links ext ests, cerr')"
proof -
  let ?r = "estimateDistance opt (maximumLikelihoodEstimate ext) len0 len1 pairs pdf"
  let ?est = "\<lparr>est_contig = id1, est_distance = fst ?r, est_numPairs = snd ?r,
               est_stdDev = getSampleStdDev pdf (snd ?r)\<rparr>"
  consider (skip) "length pairs < unat (opt_npairs opt)"
    | (written) "\<not> length pairs < unat (opt_npairs opt)" "opt_npairs opt \<le> snd ?r"
    | (warned) "\<not> length pairs < unat (opt_npairs opt)" "\<not> opt_npairs opt \<le> snd ?r"
    by blast
  then show ?thesis
  proof cases
    case skip
    then have "writeEstimate opt ext (ss, cerr) id0 id1 len0 len1 pairs pdf
                 = (ss @ adj_links ext [], cerr)"
      by (simp add: writeEstimate_def adj_links_def)
    then show ?thesis by blast
  next
    case written
    with assms have "writeEstimate opt ext (ss, cerr) id0 id1 len0 len1 pairs pdf
                 = (ss @ adj_links ext [?est], cerr)"
      by (simp add: writeEstimate_def adj_links_def Let_def)
    then show ?thesis by blast
  next
    case warned
    then have "\<exists>cerr'. writeEstimate opt ext (ss, cerr) id0 id1 len0 len1 pairs pdf
                 = (ss @ adj_links ext [], cerr')"
      by (simp add: writeEstimate_def adj_links_def Let_def)
    then show ?thesis by blast
  qed
qed

lemma adj_links_append: "adj_links ext (xs @ ys) = adj_links ext xs @ adj_links ext ys"
  by (simp add: adj_links_def)

lemma writeEstimateLoop_adj:
  assumes "\<not> opt_dot opt"
    and "\<forall>k \<in> fst ` set x. node_id k < length lengthVec"
  shows "\<exists>ests cerr'. writeEstimateLoop opt ext lengthVec pdf id0 len0 x (ss, cerr)
                        = Inr (ss @ adj_links ext ests, cerr')"
  using assms(2)
proof (induction x arbitrary: ss cerr)
  case Nil
  have "writeEstimateLoop opt ext lengthVec pdf id0 len0 [] (ss, cerr)
          = Inr (ss @ adj_links ext [], cerr)"
    by (simp add: adj_links_def)
  then show ?case by blast
next
  case (Cons it x)
  from Cons.prems have b: "node_id (fst it) < length lengthVec"
    and rest: "\<forall>k \<in> fst ` set x. node_id k < length lengthVec"
    by simp_all
  obtain e1 c1 where w: "writeEstimate opt ext (ss, cerr) id0 (fst it) len0
                           (lengthVec ! node_id (fst it)) (snd it) pdf = (ss @ adj_links ext e1, c1)"
    using writeEstimate_adj [OF assms(1)] by blast
  obtain e2 c2 where l: "writeEstimateLoop opt ext lengthVec pdf id0 len0 x (ss @ adj_links ext e1, c1)
                           = Inr ((ss @ adj_links ext e1) @ adj_links ext e2, c2)"
    using Cons.IH [OF rest] by blast
  from b w l have "writeEstimateLoop opt ext lengthVec pdf id0 len0 (it # x) (ss, cerr)
                     = Inr (ss @ adj_links ext (e1 @ e2), c2)"
    by (simp add: adj_links_append)
  then show ?case by blast
qed

lemma senseLoop_adj:
  assumes "\<not> opt_dot opt"
    and "\<forall>k \<in> fst ` set (fst dataMap) \<union> fst ` set (snd dataMap). node_id k < length lengthVec"
  shows "\<exists>ests cerr'. senseLoop opt ext lengthVec pdf id0 len0 dataMap sense0 (out, ss, cerr)
           = Inr (out, (if sense0 then ss @ '' ;'' else ss) @ adj_links ext ests, cerr')"
proof -
  let ?ss = "if sense0 then ss @ '' ;'' else ss"
  let ?x = "if sense0 \<noteq> opt_rf opt then snd dataMap else fst dataMap"
  have "\<forall>k \<in> fst ` set ?x. node_id k < length lengthVec"
    using assms(2) by auto
  from writeEstimateLoop_adj [OF assms(1) this]
  obtain ests cerr' where "writeEstimateLoop opt ext lengthVec pdf (id0, sense0) len0 ?x (?ss, cerr)
                        = Inr (?ss @ adj_links ext ests, cerr')"
    by blast
  with assms(1) have "senseLoop opt ext lengthVec pdf id0 len0 dataMap sense0 (out, ss, cerr)
           = Inr (out, ?ss @ adj_links ext ests, cerr')"
    by (simp add: senseLoop_def Let_def)
  then show ?thesis by blast
qed

lemma count_newline_adj_links:
  assumes "\<forall>est. CHR 0x0A \<notin> set (print_Estimate ext est)"
  shows "count_list (adj_links ext ests) (CHR 0x0A) = 0"
  using assms by (induction ests) (simp_all add: adj_links_def)

text \<open>
  C10. In adjacency format, for a batch whose contig names are all registered,
  \<^verbatim>\<open>writeEstimates\<close> returns; when the anchor is at least \<^verbatim>\<open>opt::seedLen\<close> long it appends to
  the output the name of the anchor, the links of the forward sense, the token \<open>'' ;''\<close>, the
  links of the reverse sense and a newline, whatever the number of links, and this text is
  exactly one line when neither the name nor a printed estimate contains a newline; when
  the anchor is shorter, nothing is written.
\<close>

theorem writeEstimates_adjacency_line:
  assumes "\<not> opt_dot opt" and "pairs \<noteq> []"
    and "rname (hd pairs) \<in> set names"
    and "\<forall>it \<in> set pairs. mrnm it \<in> set names"
    and "length names \<le> length lengthVec"
  shows "\<exists>id0. ContigID names (rname (hd pairs)) = Some id0 \<and> id0 < length lengthVec \<and>
           (if lengthVec ! id0 < opt_seedLen opt
            then writeEstimates opt ext names (out, cerr) pairs lengthVec pdf = Inr (out, cerr)
            else \<exists>fwd rev cerr'.
                   writeEstimates opt ext names (out, cerr) pairs lengthVec pdf =
                     Inr (out @ rname (hd pairs) @ adj_links ext fwd @ '' ;'' @ adj_links ext rev
                            @ [CHR 0x0A], cerr')
                   \<and> ((\<forall>est. CHR 0x0A \<notin> set (print_Estimate ext est))
                        \<and> CHR 0x0A \<notin> set (rname (hd pairs)) \<longrightarrow>
                      count_list (rname (hd pairs) @ adj_links ext fwd @ '' ;'' @ adj_links ext rev
                                    @ [CHR 0x0A]) (CHR 0x0A) = 1))"
proof -
  from assms(3) obtain id0 where id0: "ContigID names (rname (hd pairs)) = Some id0"
    using ContigID_registered by blast
  with assms(5) have b: "id0 < length lengthVec"
    using ContigID_bound [OF id0] by simp
  show ?thesis
  proof (cases "lengthVec ! id0 < opt_seedLen opt")
    case True
    with id0 b assms(2) show ?thesis
      by (simp add: writeEstimates_def)
  next
    case False
    have "\<forall>k \<in> fst ` set (fst (([], []) :: Pairs \<times> Pairs)) \<union> fst ` set (snd (([], []) :: Pairs \<times> Pairs)).
            node_id k < length names"
      by simp
    from fillDataMap_registered [OF assms(4) this]
    obtain dataMap where dm: "fillDataMap names pairs ([], []) = Inr dataMap"
      and keys: "\<forall>k \<in> fst ` set (fst dataMap) \<union> fst ` set (snd dataMap). node_id k < length names"
      by blast
    have keys': "\<forall>k \<in> fst ` set (fst dataMap) \<union> fst ` set (snd dataMap). node_id k < length lengthVec"
    proof
      fix k
      assume "k \<in> fst ` set (fst dataMap) \<union> fst ` set (snd dataMap)"
      with keys have "node_id k < length names" by blast
      with assms(5) show "node_id k < length lengthVec" by simp
    qed
    obtain fwd c1 where s0: "senseLoop opt ext lengthVec pdf id0 (lengthVec ! id0) dataMap False
                               (out, rname (hd pairs), cerr)
                             = Inr (out, rname (hd pairs) @ adj_links ext fwd, c1)"
      using senseLoop_adj [OF assms(1) keys', of ext pdf id0 "lengthVec ! id0" False out
                             "rname (hd pairs)" cerr]
      by auto
    obtain rev c2 where s1: "senseLoop opt ext lengthVec pdf id0 (lengthVec ! id0) dataMap True
                               (out, rname (hd pairs) @ adj_links ext fwd, c1)
                             = Inr (out, ((rname (hd pairs) @ adj_links ext fwd) @ '' ;'')
                                           @ adj_links ext rev, c2)"
      using senseLoop_adj [OF assms(1) keys', of ext pdf id0 "lengthVec ! id0" True out
                             "rname (hd pairs) @ adj_links ext fwd" c1]
      by auto
    have w: "writeEstimates opt ext names (out, cerr) pairs lengthVec pdf =
               Inr (out @ rname (hd pairs) @ adj_links ext fwd @ '' ;'' @ adj_links ext rev
                      @ [CHR 0x0A], c2)"
      using assms(1,2) id0 b False dm s0 s1
      by (simp add: writeEstimates_def Let_def)
    have n: "(\<forall>est. CHR 0x0A \<notin> set (print_Estimate ext est)) \<and> CHR 0x0A \<notin> set (rname (hd pairs))
             \<longrightarrow> count_list (rname (hd pairs) @ adj_links ext fwd @ '' ;'' @ adj_links ext rev
                                    @ [CHR 0x0A]) (CHR 0x0A) = 1"
      by (simp add: count_newline_adj_links count_list_0_iff)
    from id0 b False w n show ?thesis by auto
  qed
qed

theorem writeEstimates_adjacency_line_witness:
  "\<not> opt_dot ex_opt \<and> [ex_rec ''A'' ''B'' 60] \<noteq> []
   \<and> rname (hd [ex_rec ''A'' ''B'' 60]) \<in> set ex_names
   \<and> mrnm (ex_rec ''A'' ''B'' 60) \<in> set ex_names
   \<and> length ex_names \<le> length ex_lens
   \<and> (\<exists>fwd rev cerr'.
         writeEstimates ex_opt ex_ext ex_names ([], []) [ex_rec ''A'' ''B'' 60] ex_lens ex_pdf =
           Inr (''A'' @ adj_links ex_ext fwd @ '' ;'' @ adj_links ex_ext rev @ [CHR 0x0A], cerr'))
   \<and> writeEstimates (ex_opt\<lparr>opt_seedLen := 2000\<rparr>) ex_ext ex_names ([], [])
         [ex_rec ''A'' ''B'' 60] ex_lens ex_pdf = Inr ([], [])"
proof -
  let ?pairs = "[ex_rec ''A'' ''B'' 60]"
  let ?short = "ex_opt\<lparr>opt_seedLen := 2000\<rparr>"
  have h1: "\<not> opt_dot ex_opt" "\<not> opt_dot ?short"
    by (simp_all add: ex_opt_def)
  have h2: "?pairs \<noteq> []"
    by simp
  have h3: "rname (hd ?pairs) \<in> set ex_names"
    by (simp add: ex_rec_def ex_names_def)
  have h4: "\<forall>it \<in> set ?pairs. mrnm it \<in> set ex_names"
    by (simp add: ex_rec_def ex_names_def)
  have h5: "length ex_names \<le> length ex_lens"
    by (simp add: ex_names_def ex_lens_def)
  have i: "ContigID ex_names (rname (hd ?pairs)) = Some 0"
    by (simp add: ex_rec_def ex_names_def)
  have l: "\<not> ex_lens ! 0 < opt_seedLen ex_opt" "ex_lens ! 0 < opt_seedLen ?short"
    by (simp_all add: ex_lens_def ex_opt_def)
  have "\<exists>fwd rev cerr'.
         writeEstimates ex_opt ex_ext ex_names ([], []) ?pairs ex_lens ex_pdf =
           Inr (''A'' @ adj_links ex_ext fwd @ '' ;'' @ adj_links ex_ext rev @ [CHR 0x0A], cerr')"
  proof -
    from writeEstimates_adjacency_line [OF h1(1) h2 h3 h4 h5, of ex_ext "[]" "[]" ex_pdf] i l(1)
    obtain fwd rev cerr' where
      "writeEstimates ex_opt ex_ext ex_names ([], []) ?pairs ex_lens ex_pdf =
         Inr ([] @ rname (hd ?pairs) @ adj_links ex_ext fwd @ '' ;'' @ adj_links ex_ext rev
                @ [CHR 0x0A], cerr')"
      by auto
    then have "writeEstimates ex_opt ex_ext ex_names ([], []) ?pairs ex_lens ex_pdf =
         Inr (''A'' @ adj_links ex_ext fwd @ '' ;'' @ adj_links ex_ext rev @ [CHR 0x0A], cerr')"
      by (simp add: ex_rec_def)
    then show ?thesis by blast
  qed
  moreover have "writeEstimates ?short ex_ext ex_names ([], []) ?pairs ex_lens ex_pdf = Inr ([], [])"
    using writeEstimates_adjacency_line [OF h1(2) h2 h3 h4 h5, of ex_ext "[]" "[]" ex_pdf] i l(2)
    by auto
  moreover from h4 have "mrnm (ex_rec ''A'' ''B'' 60) \<in> set ex_names"
    by simp
  ultimately show ?thesis
    using h1 h2 h3 h5 by blast
qed

section \<open>Properties of the loop of main\<close>

text \<open>
  Inside the loop an alignment that fails the test of lines 398 to 400 is skipped, and an
  alignment that opens a new batch for a contig whose \<open>seen\<close> bit is set is fatal.
\<close>

lemma nextBatch_skipped:
  "skipped opt sam \<Longrightarrow>
     nextBatch opt names (sam # inp) pairs seen = nextBatch opt names inp pairs seen"
  by simp

lemma nextBatch_seen_anchor:
  assumes "\<not> skipped opt sam" and "pairs \<noteq> []" and "rname sam \<noteq> rname (hd pairs)"
    and "ContigID names (rname sam) = Some i" and "i < length seen" and "seen ! i"
  shows "nextBatch opt names (sam # inp) pairs seen = Inl (NotSorted (rname sam))"
  using assms by simp

text \<open>
  Alignments that fail the test, in any place after the first, change nothing: the run on
  the stream is the run on the stream without them.
\<close>

lemma nextBatch_filter:
  "nextBatch opt names (filter (\<lambda>sam. \<not> skipped opt sam) inp) pairs seen =
     (case nextBatch opt names inp pairs seen of
        Inl e \<Rightarrow> Inl e
      | Inr b \<Rightarrow> Inr (fst b, filter (\<lambda>sam. \<not> skipped opt sam) (fst (snd b)), snd (snd b)))"
  by (induction inp arbitrary: pairs seen) (auto split: option.splits)

lemma mainLoop_filter:
  "mainLoop opt ext names contigLens pdf (filter (\<lambda>sam. \<not> skipped opt sam) inp) pairs seen io =
   mainLoop opt ext names contigLens pdf inp pairs seen io"
proof (induction opt ext names contigLens pdf inp pairs seen io rule: mainLoop.induct)
  case (1 opt ext names contigLens pdf inp pairs seen io)
  let ?ok = "\<lambda>sam. \<not> skipped opt sam"
  show ?case
  proof (cases "nextBatch opt names inp pairs seen")
    case (Inl e)
    then have "nextBatch opt names (filter ?ok inp) pairs seen = Inl e"
      by (simp add: nextBatch_filter)
    with Inl show ?thesis
      by (simp add: mainLoop.simps [of _ _ _ _ _ inp] mainLoop.simps [of _ _ _ _ _ "filter ?ok inp"])
  next
    case (Inr b)
    then have f: "nextBatch opt names (filter ?ok inp) pairs seen
                    = Inr (fst b, filter ?ok (fst (snd b)), snd (snd b))"
      by (simp add: nextBatch_filter)
    show ?thesis
    proof (cases "fst b = []")
      case True
      with Inr f show ?thesis
        by (simp add: mainLoop.simps [of _ _ _ _ _ inp] mainLoop.simps [of _ _ _ _ _ "filter ?ok inp"])
    next
      case False
      note ne = this
      show ?thesis
      proof (cases "writeEstimates opt ext names io (fst b) contigLens pdf")
        case (Inl e)
        with Inr f ne show ?thesis
          by (simp add: mainLoop.simps [of _ _ _ _ _ inp] mainLoop.simps [of _ _ _ _ _ "filter ?ok inp"])
      next
        case (Inr io')
        note w = this
        from "1.IH" [OF \<open>nextBatch opt names inp pairs seen = Inr b\<close> ne w]
        have "mainLoop opt ext names contigLens pdf (filter ?ok (fst (snd b)))
                (fst (snd (snd b))) (snd (snd (snd b))) io'
              = mainLoop opt ext names contigLens pdf (fst (snd b))
                (fst (snd (snd b))) (snd (snd (snd b))) io'" .
        with \<open>nextBatch opt names inp pairs seen = Inr b\<close> f ne w show ?thesis
          by (simp add: mainLoop.simps [of _ _ _ _ _ inp] mainLoop.simps [of _ _ _ _ _ "filter ?ok inp"])
      qed
    qed
  qed
qed

lemma main_skips_later_records:
  "main opt ext names contigLens distanceHist
     (sam # filter (\<lambda>sam. \<not> skipped (fst (detectOrientation opt distanceHist)) sam) inp)
   = main opt ext names contigLens distanceHist (sam # inp)"
  by (simp add: main_def Let_def mainLoop_filter del: mainLoop.simps)

text \<open>
  What the \<open>seen\<close> bits enforce: when \<^verbatim>\<open>main\<close> returns, no anchor has opened two batches
  inside the loop. The anchor of the first alignment, whose batch is opened before the loop,
  is not among them.
\<close>

lemma nextBatch_Inr:
  assumes "nextBatch opt names inp pairs seen = Inr b" and "pairs \<noteq> []"
  shows "fst b \<noteq> [] \<and>
         (opened opt (rname (hd pairs)) inp = []
          \<or> (\<exists>sam i. fst (snd (snd b)) = [sam] \<and> ContigID names (rname sam) = Some i
                \<and> i < length seen \<and> \<not> seen ! i \<and> snd (snd (snd b)) = seen[i := True]
                \<and> opened opt (rname (hd pairs)) inp
                    = rname sam # opened opt (rname sam) (fst (snd b))))"
  using assms
proof (induction inp arbitrary: pairs)
  case Nil
  then show ?case by auto
next
  case (Cons sam inp)
  show ?case
  proof (cases "skipped opt sam")
    case True
    with Cons.prems have "nextBatch opt names inp pairs seen = Inr b" by simp
    from Cons.IH [OF this Cons.prems(2)] True show ?thesis by simp
  next
    case False
    note ns = this
    show ?thesis
    proof (cases "rname sam = rname (hd pairs)")
      case True
      with ns Cons.prems have "nextBatch opt names inp (pairs @ [sam]) seen = Inr b"
        by simp
      from Cons.IH [OF this] Cons.prems(2) ns True show ?thesis by simp
    next
      case False
      with ns Cons.prems show ?thesis
        by (auto split: option.splits if_splits)
    qed
  qed
qed

lemma mainLoop_anchors_distinct:
  "mainLoop opt ext names contigLens pdf inp pairs seen io = Inr r \<Longrightarrow> pairs \<noteq> [] \<Longrightarrow>
     distinct (opened opt (rname (hd pairs)) inp)
     \<and> (\<forall>a \<in> set (opened opt (rname (hd pairs)) inp). \<forall>i. ContigID names a = Some i \<longrightarrow> \<not> seen ! i)"
proof (induction opt ext names contigLens pdf inp pairs seen io rule: mainLoop.induct)
  case (1 opt ext names contigLens pdf inp pairs seen io)
  from "1.prems"(1) obtain b where b: "nextBatch opt names inp pairs seen = Inr b"
    by (cases "nextBatch opt names inp pairs seen")
       (simp_all add: mainLoop.simps [of _ _ _ _ _ inp])
  from nextBatch_Inr [OF b "1.prems"(2)] have ne: "fst b \<noteq> []" by blast
  from "1.prems"(1) b ne obtain io' where
    w: "writeEstimates opt ext names io (fst b) contigLens pdf = Inr io'"
    by (cases "writeEstimates opt ext names io (fst b) contigLens pdf")
       (simp_all add: mainLoop.simps [of _ _ _ _ _ inp])
  from "1.prems"(1) b ne w have rest:
    "mainLoop opt ext names contigLens pdf (fst (snd b)) (fst (snd (snd b))) (snd (snd (snd b))) io'
       = Inr r"
    by (simp add: mainLoop.simps [of _ _ _ _ _ inp])
  from nextBatch_Inr [OF b "1.prems"(2)]
  consider (last) "opened opt (rname (hd pairs)) inp = []"
    | (more) sam i where "fst (snd (snd b)) = [sam]" "ContigID names (rname sam) = Some i"
        "i < length seen" "\<not> seen ! i" "snd (snd (snd b)) = seen[i := True]"
        "opened opt (rname (hd pairs)) inp = rname sam # opened opt (rname sam) (fst (snd b))"
    by blast
  then show ?case
  proof cases
    case last
    then show ?thesis by simp
  next
    case more
    from "1.IH" [OF b ne w rest] more(1)
    have ih: "distinct (opened opt (rname sam) (fst (snd b)))"
      and ih2: "\<forall>a \<in> set (opened opt (rname sam) (fst (snd b))).
                  \<forall>j. ContigID names a = Some j \<longrightarrow> \<not> seen[i := True] ! j"
      using more(5) by simp_all
    have notin: "rname sam \<notin> set (opened opt (rname sam) (fst (snd b)))"
    proof
      assume "rname sam \<in> set (opened opt (rname sam) (fst (snd b)))"
      with ih2 more(2) have "\<not> seen[i := True] ! i" by blast
      with more(3) show False by simp
    qed
    have unseen: "\<forall>a \<in> set (opened opt (rname sam) (fst (snd b))).
                  \<forall>j. ContigID names a = Some j \<longrightarrow> \<not> seen ! j"
    proof (intro ballI allI impI)
      fix a j
      assume a: "a \<in> set (opened opt (rname sam) (fst (snd b)))" and j: "ContigID names a = Some j"
      with ih2 have n: "\<not> seen[i := True] ! j" by blast
      with more(3) have "j \<noteq> i" by auto
      with n show "\<not> seen ! j" by simp
    qed
    from ih notin unseen more(2,4,6) show ?thesis by auto
  qed
qed

lemma main_returns_anchors_distinct:
  assumes "main opt ext names contigLens distanceHist (sam # inp) = Inr r"
  shows "distinct (opened (fst (detectOrientation opt distanceHist)) (rname sam) inp)"
proof -
  let ?opt = "fst (detectOrientation opt distanceHist)"
  from assms obtain pdf io io' where
    "mainLoop ?opt ext names contigLens pdf inp [sam] (replicate (length contigLens) False) io = Inr io'"
    by (auto simp: main_def Let_def split: if_splits sum.splits simp del: mainLoop.simps)
  from mainLoop_anchors_distinct [OF this] show ?thesis by simp
qed

lemma main_fatal_if_later_anchor_reappears:
  assumes "\<not> distinct (opened (fst (detectOrientation opt distanceHist)) (rname sam) inp)"
  shows "\<exists>e. main opt ext names contigLens distanceHist (sam # inp) = Inl e"
proof (cases "main opt ext names contigLens distanceHist (sam # inp)")
  case (Inl e)
  then show ?thesis by blast
next
  case (Inr r)
  from main_returns_anchors_distinct [OF this] assms show ?thesis by blast
qed

text \<open>
  C2. The first alignment is read before the loop (lines 384 to 386) and the \<open>seen\<close> bit of
  its contig is never set: on the anchors A, B, A the program writes three lines, two of them
  for A, and returns 0 instead of reporting that the input is not sorted.
\<close>

theorem first_anchor_reappears_unnoticed:
  "main ex_opt ex_ext ex_names ex_lens ex_hist
     [ex_rec ''A'' ''B'' 60, ex_rec ''B'' ''A'' 60, ex_rec ''A'' ''C'' 60]
   = Inr (''A 1+,5,1 ;'' @ [CHR 0x0A] @ ''B 0+,5,1 ;'' @ [CHR 0x0A] @ ''A 2+,5,1 ;'' @ [CHR 0x0A], [])"
  by code_simp

text \<open>A reappearing anchor that is not the first one of the stream is fatal.\<close>

lemma later_anchor_reappears_fatal:
  "main ex_opt ex_ext ex_names ex_lens ex_hist
     [ex_rec ''A'' ''B'' 60, ex_rec ''B'' ''A'' 60, ex_rec ''C'' ''A'' 60, ex_rec ''B'' ''C'' 60]
   = Inl (NotSorted ''B'')"
  by code_simp

text \<open>
  C4. The first alignment is read before the loop (lines 384 to 386) and is never tested: a
  single alignment of mapping quality 0, below \<^verbatim>\<open>opt::minMapQ\<close> = 1, makes up the first
  batch and is written as a link of one pair.
\<close>

theorem first_record_not_filtered:
  "mapq (ex_rec ''A'' ''B'' 0) < unat (opt_minMapQ ex_opt)
   \<and> nextBatch ex_opt ex_names [] [ex_rec ''A'' ''B'' 0] (replicate (length ex_lens) False)
       = Inr ([ex_rec ''A'' ''B'' 0], [], [], replicate (length ex_lens) False)
   \<and> main ex_opt ex_ext ex_names ex_lens ex_hist [ex_rec ''A'' ''B'' 0]
       = Inr (''A 1+,5,1 ;'' @ [CHR 0x0A], [])"
proof -
  have "mapq (ex_rec ''A'' ''B'' 0) < unat (opt_minMapQ ex_opt)"
    by (simp add: ex_opt_def ex_rec_def)
  moreover have "main ex_opt ex_ext ex_names ex_lens ex_hist [ex_rec ''A'' ''B'' 0]
       = Inr (''A 1+,5,1 ;'' @ [CHR 0x0A], [])"
    by code_simp
  ultimately show ?thesis by simp
qed

text \<open>The same alignment in second place is dropped.\<close>

lemma later_record_filtered:
  "main ex_opt ex_ext ex_names ex_lens ex_hist [ex_rec ''B'' ''C'' 60, ex_rec ''A'' ''B'' 0]
   = Inr (''B 2+,5,1 ;'' @ [CHR 0x0A], [])"
  by code_simp

end
